theory Spec2Isabelle
  imports Main "HOL-Library.AList"
begin

section \<open>JavaScript values of the front-end\<close>

text \<open>
  The records the components receive are rows of the dataset, decoded from JSON: every
  field holds a scalar. \<open>JUndefined\<close> is what reading an absent field gives. The type
  of the numbers is a parameter. A \<open>char\<close> is a UTF-16 code unit below 256.
\<close>

datatype 'n jsval = JUndefined | JNull | JBool bool | JNum 'n | JStr string

text \<open>
  Where the code computes with numbers (the chart), a number \<open>JNum n\<close>
  is the JavaScript number of integer value \<open>n\<close>. The numbers of the model are the
  safe integers, up to \<open>2 ^ 53 - 1\<close> in magnitude: a double holds each of them
  exactly, and \<open>===\<close> and the sign of a difference are those of the integers. A
  larger integer and a fraction are not numbers of this model.
\<close>

type_synonym jsprim = "int jsval"

definition safe_integer :: "int \<Rightarrow> bool" where
  "safe_integer n = (- 9007199254740991 \<le> n \<and> n \<le> 9007199254740991)"

fun modelled :: "jsprim \<Rightarrow> bool" where
  "modelled (JNum n) = safe_integer n"
| "modelled v = True"

text \<open>
  An object is the list of its own enumerable properties in the order in which
  \<open>Object.keys\<close>, \<open>Object.values\<close> and \<open>Object.entries\<close> enumerate them.
\<close>

type_synonym 'v props = "(string \<times> 'v) list"
type_synonym jsobj = "jsprim props"

text \<open>\<open>d.k\<close> and \<open>d[k]\<close> on a record: the own property, \<open>undefined\<close> when there is none.\<close>

definition get :: "'n jsval props \<Rightarrow> string \<Rightarrow> 'n jsval" where
  "get d k = (case map_of d k of None \<Rightarrow> JUndefined | Some v \<Rightarrow> v)"

text \<open>Truthiness of a scalar, as \<open>if (v)\<close>, \<open>!v\<close>, \<open>v && ...\<close> and \<open>v || ...\<close> test it.\<close>

fun truthy :: "jsprim \<Rightarrow> bool" where
  "truthy JUndefined = False"
| "truthy JNull = False"
| "truthy (JBool b) = b"
| "truthy (JNum n) = (n \<noteq> 0)"
| "truthy (JStr s) = (s \<noteq> [])"

text \<open>\<open>typeof v === 'number'\<close>, and the number a numeric value holds.\<close>

fun is_number :: "jsprim \<Rightarrow> bool" where
  "is_number (JNum n) = True"
| "is_number v = False"

fun num_value :: "jsprim \<Rightarrow> int" where
  "num_value (JNum n) = n"
| "num_value v = 0"

text \<open>
  The decimal numeral of an integer, with its sign; \<open>digits\<close> is the numeral of a
  non-negative integer.
\<close>

function digits :: "int \<Rightarrow> string" where
  "digits n =
     (if n < 10 then [''0123456789'' ! nat n]
      else digits (n div 10) @ [''0123456789'' ! nat (n mod 10)])"
  by pat_completeness auto
termination
  by (relation "measure nat") auto

declare digits.simps [simp del]

definition decimal :: "int \<Rightarrow> string" where
  "decimal n = (if n < 0 then CHR ''-'' # digits (- n) else digits n)"

text \<open>
  \<open>String(v)\<close> on a scalar. What it gives on a number is the engine's
  \<open>Number.prototype.toString\<close>, which is not code of this repository: it is the
  parameter \<open>number_string\<close>.
\<close>

fun js_string :: "('n \<Rightarrow> string) \<Rightarrow> 'n jsval \<Rightarrow> string" where
  "js_string number_string JUndefined = ''undefined''"
| "js_string number_string JNull = ''null''"
| "js_string number_string (JBool b) = (if b then ''true'' else ''false'')"
| "js_string number_string (JNum x) = number_string x"
| "js_string number_string (JStr s) = s"

text \<open>
  The property name \<open>o[v]\<close> reads and writes is \<open>String(v)\<close>. On a safe integer the
  engine's notation is the decimal numeral. On the other numbers (exponent notation
  from \<open>1e21\<close> on, fractions) the name is outside the model: \<open>None\<close>.
\<close>

definition property_key :: "jsprim \<Rightarrow> string option" where
  "property_key v = (if modelled v then Some (js_string decimal v) else None)"

text \<open>
  The properties every object literal and every decoded JSON object inherits from
  \<open>Object.prototype\<close>. Reading one of these names on an object that has no own property
  of that name gives a function (or, for \<open>__proto__\<close>, the prototype): a truthy value.
\<close>

definition object_prototype_keys :: "string list" where
  "object_prototype_keys =
     [''constructor'', ''__defineGetter__'', ''__defineSetter__'', ''hasOwnProperty'',
      ''__lookupGetter__'', ''__lookupSetter__'', ''isPrototypeOf'', ''propertyIsEnumerable'',
      ''toString'', ''valueOf'', ''__proto__'', ''toLocaleString'']"

text \<open>
  Property order: the names that are array indices (canonical numerals up to
  \<open>2 ^ 32 - 2\<close>) come first, ascending; the other names follow in the order of their
  creation. \<open>set_own\<close> is the assignment \<open>o[k] = v\<close> to a writable own or new property.
\<close>

definition parse_digits :: "string \<Rightarrow> int" where
  "parse_digits k = fold (\<lambda>c a. 10 * a + (of_char c - 48)) k 0"

definition array_index :: "string \<Rightarrow> int option" where
  "array_index k =
     (if k \<noteq> [] \<and> list_all (\<lambda>c. c \<in> set ''0123456789'') k \<and>
         digits (parse_digits k) = k \<and> parse_digits k \<le> 4294967294
      then Some (parse_digits k) else None)"

fun insert_index :: "int \<Rightarrow> string \<Rightarrow> 'v \<Rightarrow> 'v props \<Rightarrow> 'v props" where
  "insert_index i k v [] = [(k, v)]"
| "insert_index i k v (p # ps) =
     (case array_index (fst p) of
        Some j \<Rightarrow> if j < i then p # insert_index i k v ps else (k, v) # p # ps
      | None \<Rightarrow> (k, v) # p # ps)"

definition set_own :: "string \<Rightarrow> 'v \<Rightarrow> 'v props \<Rightarrow> 'v props" where
  "set_own k v ps =
     (case array_index k of
        None \<Rightarrow> AList.update k v ps
      | Some i \<Rightarrow> if map_of ps k \<noteq> None then AList.update k v ps else insert_index i k v ps)"

text \<open>\<open>k in d\<close>: an own or an inherited property.\<close>

definition has_property :: "string \<Rightarrow> 'n jsval props \<Rightarrow> bool" where
  "has_property k d = (map_of d k \<noteq> None \<or> k \<in> set object_prototype_keys)"

text \<open>\<open>xs.join(sep)\<close> on a list of strings.\<close>

fun join :: "string \<Rightarrow> string list \<Rightarrow> string" where
  "join sep [] = []"
| "join sep [x] = x"
| "join sep (x # y # ys) = x @ sep @ join sep (y # ys)"

section \<open>The query input (ChatInput)\<close>

text \<open>
  \<open>String.prototype.trim\<close> removes white space and line terminators from both ends.
  Of these, the code units below 256 are TAB, LF, VT, FF, CR, SP and NBSP.
\<close>

definition is_white_space :: "char \<Rightarrow> bool" where
  "is_white_space c = (of_char c \<in> {9, 10, 11, 12, 13, 32, 160 :: nat})"

definition trim :: "string \<Rightarrow> string" where
  "trim s = rev (dropWhile is_white_space (rev (dropWhile is_white_space s)))"

text \<open>
  \<open>submit\<close>: the state is the field's value and the world the callback acts on; the
  \<open>onQuery\<close> property may be absent.
  \<^verbatim>\<open>
  const q = value.trim();
  if (!q) return;
  if (onQuery) onQuery(q);
  setValue("");
  \<close>
\<close>

definition submit :: "(string \<Rightarrow> 'w \<Rightarrow> 'w) option \<Rightarrow> string \<times> 'w \<Rightarrow> string \<times> 'w" where
  "submit onQuery st =
     (case st of (val, world) \<Rightarrow>
        let q = trim val in
        if q = [] then (val, world)
        else ([], (case onQuery of None \<Rightarrow> world | Some f \<Rightarrow> f q world)))"

text \<open>A callback that records the argument of every invocation, in order.\<close>

definition record_call :: "string \<Rightarrow> string list \<Rightarrow> string list" where
  "record_call q calls = calls @ [q]"

section \<open>The summary renderer (SummaryBox)\<close>

record meta =
  used_price_columns :: "string list option"
  query_type :: "string option"
  areas :: "string list option"
  area :: "string option"

text \<open>
  What is rendered: the provider badge, the query-type badge, the summary text and the
  block under the rule, which holds one badge per data source and the line of areas.
\<close>

record details =
  source_badges :: "string list"
  areas_line :: "string option"

record summary_view =
  provider_badge :: string
  query_type_badge :: "string option"
  summary_text :: string
  details_block :: "details option"

definition SummaryBox :: "string \<Rightarrow> meta option \<Rightarrow> summary_view" where
  "SummaryBox summary mt =
     \<lparr>provider_badge = ''Groq AI'',
      query_type_badge =
        (case mt of None \<Rightarrow> None
         | Some m \<Rightarrow> (case query_type m of None \<Rightarrow> None
                      | Some t \<Rightarrow> if t \<noteq> [] then Some t else None)),
      summary_text = summary,
      details_block =
        (case mt of None \<Rightarrow> None
         | Some m \<Rightarrow>
             (case used_price_columns m of None \<Rightarrow> None
              | Some cs \<Rightarrow>
                  if length cs > 0
                  then Some \<lparr>source_badges = cs,
                             areas_line = (case areas m of None \<Rightarrow> None
                                           | Some as \<Rightarrow> Some (join '', '' as))\<rparr>
                  else None))\<rparr>"

section \<open>The table renderer (DataTable)\<close>

definition whitelist :: "string list" where
  "whitelist = [''final location'', ''year'', ''city'', ''__price_computed__'']"

text \<open>\<open>k.replace(/__/g, '').replace(/_/g, ' ').toUpperCase()\<close>, on the ASCII keys of the whitelist.\<close>

fun strip_marker :: "string \<Rightarrow> string" where
  "strip_marker (a # b # cs) =
     (if a = CHR ''_'' \<and> b = CHR ''_'' then strip_marker cs else a # strip_marker (b # cs))"
| "strip_marker cs = cs"

definition upper_char :: "char \<Rightarrow> char" where
  "upper_char c =
     (case map_of (zip ''abcdefghijklmnopqrstuvwxyz'' ''ABCDEFGHIJKLMNOPQRSTUVWXYZ'') c of
        None \<Rightarrow> c | Some u \<Rightarrow> u)"

definition header_label :: "string \<Rightarrow> string" where
  "header_label k =
     map upper_char (map (\<lambda>c. if c = CHR ''_'' then CHR '' '' else c) (strip_marker k))"

text \<open>\<open>String(row[k] ?? '')\<close>, with the engine's notation of numbers as a parameter.\<close>

definition cell_text :: "('n \<Rightarrow> string) \<Rightarrow> 'n jsval props \<Rightarrow> string \<Rightarrow> string" where
  "cell_text number_string row k =
     js_string number_string
       (let v = get row k in if v = JNull \<or> v = JUndefined then JStr [] else v)"

record table_view =
  columns :: "string list"
  headers :: "string list"
  cells :: "string list list"

text \<open>The component renders nothing (\<open>None\<close>) for an absent or empty list of rows.\<close>

definition DataTable ::
    "('n \<Rightarrow> string) \<Rightarrow> 'n jsval props list option \<Rightarrow> table_view option" where
  "DataTable number_string rows =
     (case rows of
        None \<Rightarrow> None
      | Some [] \<Rightarrow> None
      | Some (first # rest) \<Rightarrow>
          let keys = filter (\<lambda>k. has_property k first) whitelist in
          Some \<lparr>columns = keys,
                headers = map header_label keys,
                cells = map (\<lambda>row. map (\<lambda>k. cell_text number_string row k) keys)
                          (first # rest)\<rparr>)"

section \<open>The chart renderer (PriceChart)\<close>

definition isComparison :: "jsobj list \<Rightarrow> bool" where
  "isComparison ds = list_ex (\<lambda>d. truthy (get d ''area'')) ds"

text \<open>
  The body of the \<open>forEach\<close> that fills \<open>yearMap\<close>:
  \<^verbatim>\<open>
  const year = d.year;
  if (!yearMap[year]) yearMap[year] = { year };
  yearMap[year][d.area] = d.__price_computed__;
  \<close>
  Three inputs are outside the model, and give \<open>None\<close>. When the year or the area
  is a number whose property name is not modelled. When the name of the year is one
  \<open>yearMap\<close> inherits, the test reads the inherited value and the assignment lands on
  an object the whole page shares. When the name of the area is \<open>__proto__\<close>, the
  assignment goes to the accessor of the row's prototype.
\<close>

definition group_by_year :: "jsobj props \<Rightarrow> jsobj \<Rightarrow> jsobj props option" where
  "group_by_year yearMap d =
     (let year = get d ''year'' in
      case property_key year of
        None \<Rightarrow> None
      | Some yk \<Rightarrow>
          (case property_key (get d ''area'') of
             None \<Rightarrow> None
           | Some ak \<Rightarrow>
               if yk \<in> set object_prototype_keys \<or> ak = ''__proto__'' then None
               else
                 let ym = (if map_of yearMap yk = None
                           then set_own yk [(''year'', year)] yearMap else yearMap);
                     row = (case map_of ym yk of None \<Rightarrow> [] | Some r \<Rightarrow> r)
                 in Some (set_own yk (set_own ak (get d ''__price_computed__'') row) ym)))"

text \<open>\<open>data.forEach(...)\<close>, from the \<open>yearMap\<close> built so far.\<close>

fun fill_yearMap :: "jsobj list \<Rightarrow> jsobj props \<Rightarrow> jsobj props option" where
  "fill_yearMap [] yearMap = Some yearMap"
| "fill_yearMap (d # ds) yearMap =
     (case group_by_year yearMap d of
        None \<Rightarrow> None
      | Some ym \<Rightarrow> fill_yearMap ds ym)"

text \<open>
  \<open>rows.sort((a, b) => a.year - b.year)\<close>: the sort is stable. On rows whose years are
  all numbers the comparator is the order of the integers; on any other row it coerces
  the operands, which the model leaves out: the result is \<open>None\<close> there.
\<close>

definition sort_by_year :: "jsobj list \<Rightarrow> jsobj list option" where
  "sort_by_year rows =
     (if list_all (\<lambda>r. is_number (get r ''year'')) rows
      then Some (sort_key (\<lambda>r. num_value (get r ''year'')) rows) else None)"

text \<open>\<open>chartData\<close> of the comparison branch: \<open>Object.values(yearMap).sort(...)\<close>.\<close>

definition comparison_data :: "jsobj list \<Rightarrow> jsobj list option" where
  "comparison_data ds =
     (case fill_yearMap ds [] of
        None \<Rightarrow> None
      | Some yearMap \<Rightarrow> sort_by_year (map snd yearMap))"

text \<open>
  \<open>chartData\<close> of the single-series branch:
  \<^verbatim>\<open>
  data.map((d) => ({
    year: d.year,
    price: d.__price_computed__ !== undefined && d.__price_computed__ !== null
      ? d.__price_computed__
      : Object.values(d).find(v => typeof v === 'number' && v !== d.year)
  }))
  \<close>
\<close>

definition trend_point :: "jsobj \<Rightarrow> jsobj" where
  "trend_point d =
     [(''year'', get d ''year''),
      (''price'',
        (let p = get d ''__price_computed__'' in
         if p \<noteq> JUndefined \<and> p \<noteq> JNull then p
         else (case find (\<lambda>v. is_number v \<and> v \<noteq> get d ''year'') (map snd d) of
                 None \<Rightarrow> JUndefined | Some v \<Rightarrow> v)))]"

definition trend_data :: "jsobj list \<Rightarrow> jsobj list" where
  "trend_data ds = map trend_point ds"

text \<open>
  What the component hands to the line chart. The outer \<open>None\<close> is an input outside
  the model: a record holds a number that is not a safe integer, or a comparison input
  is outside the model of \<open>group_by_year\<close> or of \<open>sort_by_year\<close>.
\<close>

definition modelled_record :: "jsobj \<Rightarrow> bool" where
  "modelled_record d = list_all (\<lambda>kv. modelled (snd kv)) d"

datatype chart_view = NoChart | PriceComparison "jsobj list" | PriceTrend "jsobj list"

definition PriceChart :: "jsobj list option \<Rightarrow> chart_view option" where
  "PriceChart dat =
     (case dat of
        None \<Rightarrow> Some NoChart
      | Some ds \<Rightarrow>
          if ds = [] then Some NoChart
          else if \<not> list_all modelled_record ds then None
          else if isComparison ds then map_option PriceComparison (comparison_data ds)
          else Some (PriceTrend (trend_data ds)))"

section \<open>The page controller (App)\<close>

text \<open>
  The decoded body of a response is any JSON value; the controller stores it whole and
  reads its \<open>error\<close> member.
\<close>

datatype json = JPrim jsprim | JArray "json list" | JObject "(string \<times> json) list"

abbreviation json_null :: json where
  "json_null \<equiv> JPrim JNull"

fun json_truthy :: "json \<Rightarrow> bool" where
  "json_truthy (JPrim p) = truthy p"
| "json_truthy (JArray xs) = True"
| "json_truthy (JObject ps) = True"

text \<open>The three \<open>useState\<close> cells of \<open>App\<close>, with their initial values.\<close>

record app_state =
  data :: json
  loading :: bool
  error :: json

definition initial_state :: app_state where
  "initial_state = \<lparr>data = json_null, loading = False, error = json_null\<rparr>"

text \<open>
  \<open>handleHomeClick\<close>: prevents the link's default action and clears the three cells.
  The click event is its flag \<open>defaultPrevented\<close>.
\<close>

definition handleHomeClick :: "bool \<times> app_state \<Rightarrow> bool \<times> app_state" where
  "handleHomeClick es =
     (case es of (defaultPrevented, s) \<Rightarrow>
        (True, s\<lparr>data := json_null, error := json_null, loading := False\<rparr>))"

text \<open>
  What the network gives back to one \<open>fetch\<close>: the promise is rejected, or it resolves
  to a response with a status whose body \<open>res.json()\<close> decodes or rejects. An exception
  is its message; \<open>res.ok\<close> holds for the statuses 200 to 299.
\<close>

datatype body = Unparsable string | Parsed json
datatype fetch_result = Rejected string | Response nat body

definition ok :: "nat \<Rightarrow> bool" where
  "ok status = (200 \<le> status \<and> status \<le> 299)"

text \<open>
  \<open>json.error\<close>: reading a member of \<open>null\<close> throws a TypeError (the message is the one
  of V8), every other scalar and every array has no such member.
\<close>

definition null_read_message :: string where
  "null_read_message = ''Cannot read properties of null (reading 'error')''"

definition undefined_read_message :: string where
  "undefined_read_message = ''Cannot read properties of undefined (reading 'error')''"

fun error_member :: "json \<Rightarrow> string + json" where
  "error_member (JPrim JNull) = Inl null_read_message"
| "error_member (JPrim JUndefined) = Inl undefined_read_message"
| "error_member (JPrim p) = Inr (JPrim JUndefined)"
| "error_member (JArray xs) = Inr (JPrim JUndefined)"
| "error_member (JObject ps) =
     Inr (case map_of ps ''error'' of None \<Rightarrow> JPrim JUndefined | Some v \<Rightarrow> v)"

text \<open>
  \<open>handleQuery\<close> runs in two steps of the event loop. The first, up to the \<open>await\<close>:
  \<^verbatim>\<open>
  setError(null); setLoading(true); setData(null);
  \<close>
\<close>

definition handleQuery_begin :: "app_state \<Rightarrow> app_state" where
  "handleQuery_begin s = s\<lparr>error := json_null, loading := True, data := json_null\<rparr>"

text \<open>
  The second, when the request settles. The \<open>try\<close> block ends in one setter call or in
  an exception (\<open>Inl\<close>, with its message); the \<open>catch\<close> turns the exception into a setter
  call; \<open>finally\<close> clears the loading flag.
  \<^verbatim>\<open>
  try {
    const res = await fetch(...);
    const json = await res.json();
    if (!res.ok) { setError(json.error || 'API error'); } else { setData(json); }
  } catch (err) {
    setError(err.message || 'Network error');
  } finally {
    setLoading(false);
  }
  \<close>
\<close>

datatype setter = SetData json | SetError json

fun apply_setter :: "setter \<Rightarrow> app_state \<Rightarrow> app_state" where
  "apply_setter (SetData j) s = s\<lparr>data := j\<rparr>"
| "apply_setter (SetError m) s = s\<lparr>error := m\<rparr>"

fun handleQuery_try :: "fetch_result \<Rightarrow> string + setter" where
  "handleQuery_try (Rejected m) = Inl m"
| "handleQuery_try (Response status (Unparsable m)) = Inl m"
| "handleQuery_try (Response status (Parsed j)) =
     (if \<not> ok status then
        (case error_member j of
           Inl m \<Rightarrow> Inl m
         | Inr e \<Rightarrow> Inr (SetError (if json_truthy e then e else JPrim (JStr ''API error''))))
      else Inr (SetData j))"

definition handleQuery_call :: "fetch_result \<Rightarrow> setter" where
  "handleQuery_call r =
     (case handleQuery_try r of
        Inr w \<Rightarrow> w
      | Inl m \<Rightarrow> SetError (JPrim (JStr (if m \<noteq> [] then m else ''Network error''))))"

definition handleQuery_settle :: "fetch_result \<Rightarrow> app_state \<Rightarrow> app_state" where
  "handleQuery_settle r s = (apply_setter (handleQuery_call r) s)\<lparr>loading := False\<rparr>"


subsection \<open>The event loop\<close>

text \<open>
  The page and the requests in flight. The numbers that name the requests belong to the
  event loop: the controller keeps none. A query can be submitted while the loading
  flag is false (the input is disabled and the example buttons are hidden otherwise); a
  request in flight settles once, whenever the network decides; the home link can always
  be clicked.
\<close>

record system =
  app :: app_state
  pending :: "nat list"
  issued :: nat

definition initial_system :: system where
  "initial_system = \<lparr>app = initial_state, pending = [], issued = 0\<rparr>"

datatype event = Query string | Settle nat fetch_result | HomeClick

fun step :: "event \<Rightarrow> system \<Rightarrow> system option" where
  "step (Query q) \<sigma> =
     (if loading (app \<sigma>) then None
      else Some (\<sigma>\<lparr>app := handleQuery_begin (app \<sigma>),
                     pending := pending \<sigma> @ [issued \<sigma>],
                     issued := Suc (issued \<sigma>)\<rparr>))"
| "step (Settle i r) \<sigma> =
     (if i \<in> set (pending \<sigma>)
      then Some (\<sigma>\<lparr>app := handleQuery_settle r (app \<sigma>),
                      pending := removeAll i (pending \<sigma>)\<rparr>)
      else None)"
| "step HomeClick \<sigma> = Some (\<sigma>\<lparr>app := snd (handleHomeClick (False, app \<sigma>))\<rparr>)"

fun run :: "event list \<Rightarrow> system \<Rightarrow> system option" where
  "run [] \<sigma> = Some \<sigma>"
| "run (e # es) \<sigma> = (case step e \<sigma> of None \<Rightarrow> None | Some \<sigma>' \<Rightarrow> run es \<sigma>')"

section \<open>Notions of the specification\<close>

text \<open>
  The specification's RequestState, read off the three cells; \<open>None\<close> when the cells
  are in none of the four states.
\<close>

datatype request_state = Idle | Loading | Success json | Error json

definition request_state_of :: "app_state \<Rightarrow> request_state option" where
  "request_state_of s =
     (if loading s then (if data s = json_null \<and> error s = json_null then Some Loading else None)
      else if data s = json_null \<and> error s = json_null then Some Idle
      else if error s = json_null then Some (Success (data s))
      else if data s = json_null then Some (Error (error s))
      else None)"


text \<open>A run in which every query is submitted when no request is in flight.\<close>

fun is_Query :: "event \<Rightarrow> bool" where
  "is_Query (Query q) = True"
| "is_Query e = False"

fun serial :: "event list \<Rightarrow> system \<Rightarrow> bool" where
  "serial [] \<sigma> = True"
| "serial (e # es) \<sigma> =
     ((if is_Query e then pending \<sigma> = [] else True) \<and>
      (case step e \<sigma> of None \<Rightarrow> True | Some \<sigma>' \<Rightarrow> serial es \<sigma>'))"

text \<open>
  A chart record of a comparison: its numbers are numbers of the model, its year is a
  number, and the name of its area is neither the row's own \<open>year\<close> field nor
  \<open>__proto__\<close>.
\<close>

definition chart_record_ok :: "jsobj \<Rightarrow> bool" where
  "chart_record_ok d =
     (modelled_record d \<and> is_number (get d ''year'') \<and>
      js_string decimal (get d ''area'') \<noteq> ''year'' \<and>
      js_string decimal (get d ''area'') \<noteq> ''__proto__'')"

text \<open>
  The value of an area in a year: the computed price of the last record of that year
  and area, \<open>None\<close> when there is no such record.
\<close>

definition area_values :: "jsobj list \<Rightarrow> int \<Rightarrow> string \<Rightarrow> jsprim option" where
  "area_values ds n =
     map_of (rev (map (\<lambda>d. (js_string decimal (get d ''area''), get d ''__price_computed__''))
                      (filter (\<lambda>d. get d ''year'' = JNum n) ds)))"

text \<open>
  The mode as the specification words it: comparison when some record carries an area
  field.
\<close>

definition spec_isComparison :: "jsobj list \<Rightarrow> bool" where
  "spec_isComparison ds = list_ex (\<lambda>d. map_of d ''area'' \<noteq> None) ds"

text \<open>
  The plotted value as the specification words it: the computed price when present and
  not null, otherwise the first numeric field that is not the year field.
\<close>

definition spec_plotted_value :: "jsobj \<Rightarrow> jsprim" where
  "spec_plotted_value d =
     (let p = get d ''__price_computed__'' in
      if p \<noteq> JUndefined \<and> p \<noteq> JNull then p
      else (case find (\<lambda>kv. fst kv \<noteq> ''year'' \<and> is_number (snd kv)) d of
              None \<Rightarrow> JUndefined | Some kv \<Rightarrow> snd kv))"

subsection \<open>Inputs of the examples\<close>

definition spec_example :: "jsobj list" where
  "spec_example =
     [[(''year'', JNum 2021), (''area'', JStr ''Wakad''), (''__price_computed__'', JNum 5000)],
      [(''year'', JNum 2021), (''area'', JStr ''Akurdi''), (''__price_computed__'', JNum 4800)],
      [(''year'', JNum 2022), (''area'', JStr ''Wakad''), (''__price_computed__'', JNum 5200)]]"

definition area_named_year :: "jsobj list" where
  "area_named_year =
     [[(''year'', JNum 2021), (''area'', JStr ''year''), (''__price_computed__'', JNum 5000)]]"

definition null_area_records :: "jsobj list" where
  "null_area_records =
     [[(''year'', JNum 2021), (''area'', JNull), (''__price_computed__'', JNum 5000)],
      [(''year'', JNum 2022), (''area'', JStr []), (''__price_computed__'', JNum 5200)]]"

definition rate_records :: "jsobj list" where
  "rate_records =
     [[(''year'', JNum 2014), (''rate'', JNum 1990)],
      [(''year'', JNum 2015), (''rate'', JNum 2015)]]"

definition table_rows :: "jsobj list" where
  "table_rows =
     [[(''year'', JNum 2021), (''final location'', JStr ''Wakad''),
       (''__price_computed__'', JNum 5000), (''city'', JNull)],
      [(''year'', JNum 2022), (''city'', JStr ''Pune'')]]"

definition area_not_found :: json where
  "area_not_found = JObject [(''error'', JPrim (JStr ''area not found''))]"

definition wakad_reply :: json where
  "wakad_reply = JObject [(''summary'', JPrim (JStr ''Wakad prices rose''))]"

definition aundh_reply :: json where
  "aundh_reply = JObject [(''summary'', JPrim (JStr ''Aundh grew over 3 years''))]"

subsection \<open>Invariants of the proofs\<close>

text \<open>
  Of the event loop: a loading page holds no result; and, in a serial run, at most one
  request is in flight, and while it is the page holds no result.
\<close>

definition loading_clean :: "system \<Rightarrow> bool" where
  "loading_clean \<sigma> =
     (loading (app \<sigma>) \<longrightarrow> data (app \<sigma>) = json_null \<and> error (app \<sigma>) = json_null)"

definition one_at_a_time :: "system \<Rightarrow> bool" where
  "one_at_a_time \<sigma> =
     (length (pending \<sigma>) \<le> 1 \<and>
      (pending \<sigma> \<noteq> [] \<longrightarrow> data (app \<sigma>) = json_null \<and> error (app \<sigma>) = json_null) \<and>
      (data (app \<sigma>) = json_null \<or> error (app \<sigma>) = json_null))"

text \<open>
  Of the loop that fills \<open>yearMap\<close>, after the records \<open>ds\<close>: one entry per year of
  \<open>ds\<close>, named by the year, whose row holds the year and the values of its areas.
\<close>

definition pivoted :: "jsobj list \<Rightarrow> jsobj props \<Rightarrow> bool" where
  "pivoted ds ym =
     (distinct (map fst ym) \<and>
      (\<forall>k row. map_of ym k = Some row \<longrightarrow>
         (\<exists>n. k = decimal n \<and> (\<exists>d\<in>set ds. get d ''year'' = JNum n) \<and>
              distinct (map fst row) \<and>
              map_of row = (area_values ds n)(''year'' \<mapsto> JNum n))) \<and>
      (\<forall>d\<in>set ds. \<forall>n. get d ''year'' = JNum n \<longrightarrow> map_of ym (decimal n) \<noteq> None))"

lemmas app_defs = initial_system_def initial_state_def handleQuery_begin_def
  handleQuery_settle_def handleQuery_call_def handleHomeClick_def ok_def

section \<open>Home navigation\<close>

text \<open>
  C6. Invoking the home-navigation action from every state (Loading, Success, Error or
  any other combination of the three cells) puts the page controller in the Idle state:
  data is null, error is null and the loading flag is false.
\<close>

theorem C6_home_resets_to_idle:
  "snd (handleHomeClick (e, s)) = \<lparr>data = json_null, loading = False, error = json_null\<rparr> \<and>
   request_state_of (snd (handleHomeClick (e, s))) = Some Idle"
  by (simp add: handleHomeClick_def request_state_of_def)

section \<open>Error handling of a query\<close>




section \<open>Responses of superseded queries\<close>

text \<open>
  C9, as amended. A settling request carries no identifier, so the response of a
  superseded query is applied to the current state: after query A and a home click, A's
  response settles on the idle page; with a query B submitted in between, A's and B's
  responses are both applied, in the order in which they settle. The response that
  settles last decides the loading flag (false) and the one cell it writes (data for a
  success, error for a failure); the other cell keeps what earlier events left in it.
\<close>

theorem C9_stale_response_is_applied:
  "map_option app (run [Query qa, HomeClick, Settle 0 ra] initial_system) =
     Some (handleQuery_settle ra initial_state) \<and>
   map_option app (run [Query qa, HomeClick, Query qb, Settle 0 ra, Settle 1 rb] initial_system) =
     Some (handleQuery_settle rb (handleQuery_settle ra (handleQuery_begin initial_state))) \<and>
   map_option app (run [Query qa, HomeClick, Query qb, Settle 1 rb, Settle 0 ra] initial_system) =
     Some (handleQuery_settle ra (handleQuery_settle rb (handleQuery_begin initial_state))) \<and>
   loading (handleQuery_settle r s) = False \<and>
   (case handleQuery_call r of
      SetData j \<Rightarrow> data (handleQuery_settle r s) = j \<and> error (handleQuery_settle r s) = error s
    | SetError m \<Rightarrow> error (handleQuery_settle r s) = m \<and> data (handleQuery_settle r s) = data s)"
  by (simp add: initial_system_def initial_state_def handleQuery_begin_def handleHomeClick_def
      handleQuery_settle_def split: setter.split)

text \<open>The reply to a query the user left by the home link shows up on the idle page.\<close>

theorem C9_witness:
  "map_option app (run [Query ''Wakad'', HomeClick, Settle 0 (Response 200 (Parsed wakad_reply))]
      initial_system) = Some \<lparr>data = wakad_reply, loading = False, error = json_null\<rparr>"
  using C9_stale_response_is_applied [of "''Wakad''" "Response 200 (Parsed wakad_reply)"]
  by (simp add: handleQuery_settle_def handleQuery_call_def ok_def initial_state_def)

text \<open>
  C9 as stated fails in its last part: two runs end with the same settling response, and
  end in different states, since the failure of the superseded query stays in the error
  cell.
\<close>

theorem C9_counterexample:
  "map_option app
     (run [Query ''Wakad'', HomeClick, Query ''Aundh'', Settle 0 (Rejected ''Failed to fetch''),
           Settle 1 (Response 200 (Parsed aundh_reply))] initial_system) =
     Some \<lparr>data = aundh_reply, loading = False, error = JPrim (JStr ''Failed to fetch'')\<rparr> \<and>
   map_option app
     (run [Query ''Aundh'', Settle 0 (Response 200 (Parsed aundh_reply))] initial_system) =
     Some \<lparr>data = aundh_reply, loading = False, error = json_null\<rparr>"
  by (simp add: app_defs)

section \<open>Consistency of the three cells\<close>

lemma step_loading_clean: "step e \<sigma> = Some \<sigma>' \<Longrightarrow> loading_clean \<sigma>'"
  by (cases e)
    (auto simp: loading_clean_def handleQuery_begin_def handleQuery_settle_def
      handleHomeClick_def split: if_splits)

lemma run_loading_clean:
  "run es \<sigma> = Some \<sigma>' \<Longrightarrow> loading_clean \<sigma> \<Longrightarrow> loading_clean \<sigma>'"
proof (induction es arbitrary: \<sigma>)
  case Nil
  then show ?case by simp
next
  case (Cons e es)
  then obtain \<tau> where st: "step e \<sigma> = Some \<tau>" and rn: "run es \<tau> = Some \<sigma>'"
    by (auto split: option.splits)
  from Cons.IH [OF rn step_loading_clean [OF st]] show ?case .
qed

lemma apply_setter_one:
  "data s = json_null \<Longrightarrow> error s = json_null \<Longrightarrow>
   data (apply_setter w s) = json_null \<or> error (apply_setter w s) = json_null"
  by (cases w) simp_all

lemma step_one_at_a_time:
  assumes "step e \<sigma> = Some \<sigma>'" and "one_at_a_time \<sigma>"
    and "is_Query e \<Longrightarrow> pending \<sigma> = []"
  shows "one_at_a_time \<sigma>'"
proof (cases e)
  case (Query q)
  with assms show ?thesis
    by (auto simp: one_at_a_time_def handleQuery_begin_def split: if_splits)
next
  case (Settle i r)
  with assms have mem: "i \<in> set (pending \<sigma>)"
    and eq: "\<sigma>' = \<sigma>\<lparr>app := handleQuery_settle r (app \<sigma>), pending := removeAll i (pending \<sigma>)\<rparr>"
    by (auto split: if_splits)
  from mem assms(2) have p: "pending \<sigma> = [i]"
    by (cases "pending \<sigma>") (auto simp: one_at_a_time_def)
  with assms(2) have clean: "data (app \<sigma>) = json_null" "error (app \<sigma>) = json_null"
    by (auto simp: one_at_a_time_def)
  from apply_setter_one [OF clean] show ?thesis
    by (simp add: eq p one_at_a_time_def handleQuery_settle_def)
next
  case HomeClick
  with assms show ?thesis
    by (auto simp: one_at_a_time_def handleHomeClick_def)
qed

lemma run_one_at_a_time:
  "run es \<sigma> = Some \<sigma>' \<Longrightarrow> serial es \<sigma> \<Longrightarrow> one_at_a_time \<sigma> \<Longrightarrow> one_at_a_time \<sigma>'"
proof (induction es arbitrary: \<sigma>)
  case Nil
  then show ?case by simp
next
  case (Cons e es)
  then obtain \<tau> where st: "step e \<sigma> = Some \<tau>" and rn: "run es \<tau> = Some \<sigma>'"
    by (auto split: option.splits)
  from Cons.prems(2) st have ser: "serial es \<tau>" and q: "is_Query e \<Longrightarrow> pending \<sigma> = []"
    by (auto split: if_splits)
  from step_one_at_a_time [OF st Cons.prems(3) q] have "one_at_a_time \<tau>" .
  from Cons.IH [OF rn ser this] show ?case .
qed

lemma request_state_of_defined:
  "(loading s \<longrightarrow> data s = json_null \<and> error s = json_null) \<Longrightarrow>
   data s = json_null \<or> error s = json_null \<Longrightarrow> request_state_of s \<noteq> None"
  by (auto simp: request_state_of_def)

text \<open>
  C10, as amended. In every state the page reaches between two events, a true loading
  flag comes with null data and a null error, and a new query sets data and error to
  null whatever the previous result was. In a run in which every query is submitted
  when no request is in flight, the three cells are always in exactly one of the
  states Idle, Loading, Success and Error. (When a superseded request settles late,
  data and error can both be set.)
\<close>

theorem C10_loading_implies_no_result:
  "(run es initial_system = Some \<sigma> \<longrightarrow>
      (loading (app \<sigma>) \<longrightarrow> data (app \<sigma>) = json_null \<and> error (app \<sigma>) = json_null)) \<and>
   (run es initial_system = Some \<sigma> \<and> serial es initial_system \<longrightarrow>
      request_state_of (app \<sigma>) \<noteq> None) \<and>
   (step (Query q) \<tau> = Some \<tau>' \<longrightarrow>
      app \<tau>' = \<lparr>data = json_null, loading = True, error = json_null\<rparr>)"
proof -
  have l0: "loading_clean initial_system"
    by (simp add: loading_clean_def initial_system_def initial_state_def)
  have o0: "one_at_a_time initial_system"
    by (simp add: one_at_a_time_def initial_system_def initial_state_def)
  have inv: "loading_clean \<sigma>" if "run es initial_system = Some \<sigma>"
    using run_loading_clean [OF that l0] .
  have four: "request_state_of (app \<sigma>) \<noteq> None"
    if r: "run es initial_system = Some \<sigma>" and ser: "serial es initial_system"
  proof -
    from run_one_at_a_time [OF r ser o0]
    have "data (app \<sigma>) = json_null \<or> error (app \<sigma>) = json_null"
      by (simp add: one_at_a_time_def)
    with inv [OF r] show ?thesis
      by (intro request_state_of_defined) (simp_all add: loading_clean_def)
  qed
  have fresh: "app \<tau>' = \<lparr>data = json_null, loading = True, error = json_null\<rparr>"
    if "step (Query q) \<tau> = Some \<tau>'"
    using that by (auto simp: handleQuery_begin_def split: if_splits)
  from inv four fresh show ?thesis
    unfolding loading_clean_def by blast
qed

text \<open>A serial run: a query, its reply, then a second query, which is loading.\<close>

theorem C10_witness:
  "run [Query ''Wakad'', Settle 0 (Response 200 (Parsed wakad_reply)), Query ''Aundh'']
      initial_system =
     Some \<lparr>app = \<lparr>data = json_null, loading = True, error = json_null\<rparr>,
           pending = [1], issued = 2\<rparr> \<and>
   serial [Query ''Wakad'', Settle 0 (Response 200 (Parsed wakad_reply)), Query ''Aundh'']
      initial_system \<and>
   request_state_of \<lparr>data = json_null, loading = True, error = json_null\<rparr> \<noteq> None"
proof -
  let ?es = "[Query ''Wakad'', Settle 0 (Response 200 (Parsed wakad_reply)), Query ''Aundh'']"
  let ?\<sigma> = "\<lparr>app = \<lparr>data = json_null, loading = True, error = json_null\<rparr>,
             pending = [1], issued = 2\<rparr>"
  have r: "run ?es initial_system = Some ?\<sigma>"
    by (simp add: app_defs)
  have s: "serial ?es initial_system"
    by (simp add: app_defs)
  from C10_loading_implies_no_result [of ?es ?\<sigma>] r s
  have "request_state_of (app ?\<sigma>) \<noteq> None" by blast
  with r s show ?thesis by simp
qed

text \<open>
  C10 as stated fails: the user leaves a query by the home link and submits another; the
  first fails, the second succeeds, and the page holds data and an error at once, which
  is none of the four states.
\<close>

theorem C10_counterexample:
  "map_option (request_state_of \<circ> app)
     (run [Query ''Wakad'', HomeClick, Query ''Aundh'',
           Settle 0 (Response 404 (Parsed area_not_found)),
           Settle 1 (Response 200 (Parsed aundh_reply))] initial_system) = Some None"
  by (simp add: app_defs request_state_of_def area_not_found_def aundh_reply_def)

section \<open>Submitting the query input\<close>

lemma trim_decompose:
  "\<exists>a b. s = a @ trim s @ b \<and> list_all is_white_space a \<and> list_all is_white_space b"
proof -
  let ?a = "takeWhile is_white_space s"
  let ?m = "dropWhile is_white_space s"
  let ?b = "rev (takeWhile is_white_space (rev ?m))"
  have "rev (rev ?m) =
      rev (takeWhile is_white_space (rev ?m) @ dropWhile is_white_space (rev ?m))"
    by (simp only: takeWhile_dropWhile_id)
  then have "?m = rev (dropWhile is_white_space (rev ?m)) @ ?b"
    by (simp only: rev_append rev_rev_ident)
  then have "?m = trim s @ ?b"
    by (simp only: trim_def)
  moreover have "s = ?a @ ?m" by simp
  ultimately have "s = ?a @ trim s @ ?b" by simp
  moreover have "list_all is_white_space ?a"
    by (simp add: list_all_iff) (meson set_takeWhileD)
  moreover have "list_all is_white_space ?b"
    by (simp add: list_all_iff) (meson set_takeWhileD)
  ultimately show ?thesis by blast
qed

lemma trim_ends:
  assumes "trim s \<noteq> []"
  shows "\<not> is_white_space (hd (trim s))" and "\<not> is_white_space (last (trim s))"
proof -
  let ?m = "dropWhile is_white_space s"
  let ?r = "dropWhile is_white_space (rev ?m)"
  from assms have r: "?r \<noteq> []" by (simp add: trim_def)
  then have "\<not> is_white_space (hd ?r)" by (rule hd_dropWhile)
  with r show "\<not> is_white_space (last (trim s))"
    by (simp add: trim_def last_rev)
  have "?r = []" if "?m = []"
    unfolding that by simp
  with r have m: "?m \<noteq> []" by blast
  then have hm: "\<not> is_white_space (hd ?m)" by (rule hd_dropWhile)
  have "?r \<noteq> [] \<Longrightarrow> last ?r = last (rev ?m)"
    by (metis append_is_Nil_conv last_appendR takeWhile_dropWhile_id)
  with r m have "last ?r = hd ?m" by (simp add: last_rev)
  with r hm show "\<not> is_white_space (hd (trim s))"
    by (simp add: trim_def hd_rev)
qed

lemma white_space_chars:
  "is_white_space CHR '' ''" "\<not> is_white_space CHR ''W''" "\<not> is_white_space CHR ''d''"
  "is_white_space (CHR 0x09)" "is_white_space (CHR 0x0A)"
  by (simp_all add: is_white_space_def)

text \<open>
  C4. For every value of the field, submitting trims the value: the trimmed string is
  the value without the white space at its two ends. If the trimmed string is empty
  the submission changes nothing, and the callback is not invoked. Otherwise the callback
  is invoked once, with exactly the trimmed string, and the field is cleared to the
  empty string.
\<close>

theorem C4_submit_contract:
  "submit (Some f) (v, w) = (if trim v = [] then (v, w) else ([], f (trim v) w)) \<and>
   submit (Some record_call) (v, calls) =
     (if trim v = [] then (v, calls) else ([], calls @ [trim v])) \<and>
   (\<exists>a b. v = a @ trim v @ b \<and> list_all is_white_space a \<and> list_all is_white_space b) \<and>
   (trim v = [] \<or> (\<not> is_white_space (hd (trim v)) \<and> \<not> is_white_space (last (trim v))))"
  using trim_decompose [of v] trim_ends [of v]
  by (auto simp: submit_def record_call_def Let_def)

text \<open>
  Submitting \<open>Wakad\<close> between blanks calls back once with \<open>Wakad\<close> and clears the
  field; submitting a blank, a tab and a line feed does nothing.
\<close>

theorem C4_witness:
  "submit (Some record_call) (''  Wakad '', []) = ([], [''Wakad'']) \<and>
   submit (Some record_call) ([CHR '' '', CHR 0x09, CHR 0x0A], []) =
     ([CHR '' '', CHR 0x09, CHR 0x0A], [])"
  using C4_submit_contract [of record_call "''  Wakad ''" "[]" "[]"]
    C4_submit_contract [of record_call "[CHR '' '', CHR 0x09, CHR 0x0A]" "[]" "[]"]
  by (simp add: trim_def white_space_chars record_call_def)

section \<open>Badges and areas of the summary\<close>

text \<open>
  C8, as amended. When the metadata carries a non-empty list of data-source
  identifiers, every identifier is displayed as its own badge and, if the metadata
  also carries a list of analyzed area names, the names are displayed joined by a comma
  and a blank. When the list of data sources is absent or empty, neither the badges
  nor the areas are displayed.
\<close>

theorem C8_areas_shown_with_data_sources:
  "(used_price_columns m = Some cs \<and> cs \<noteq> [] \<longrightarrow>
      details_block (SummaryBox t (Some m)) =
        Some \<lparr>source_badges = cs, areas_line = map_option (join '', '') (areas m)\<rparr>) \<and>
   (used_price_columns m = None \<or> used_price_columns m = Some [] \<longrightarrow>
      details_block (SummaryBox t (Some m)) = None)"
  by (auto simp: SummaryBox_def split: option.splits)

text \<open>One data source and two areas.\<close>

theorem C8_witness:
  "details_block (SummaryBox ''Prices rose.''
      (Some \<lparr>used_price_columns = Some [''flat - weighted average rate''], query_type = None,
             areas = Some [''Wakad'', ''Akurdi''], area = None\<rparr>)) =
     Some \<lparr>source_badges = [''flat - weighted average rate''],
           areas_line = Some ''Wakad, Akurdi''\<rparr>"
  using C8_areas_shown_with_data_sources
    [of "\<lparr>used_price_columns = Some [''flat - weighted average rate''], query_type = None,
             areas = Some [''Wakad'', ''Akurdi''], area = None\<rparr>"
        "[''flat - weighted average rate'']" "''Prices rose.''"]
  by simp

text \<open>
  C8 as stated fails: the metadata carries two analyzed areas and no data sources, and
  the areas are not displayed.
\<close>

theorem C8_counterexample:
  "areas \<lparr>used_price_columns = None, query_type = Some ''comparison'',
          areas = Some [''Wakad'', ''Akurdi''], area = None\<rparr> = Some [''Wakad'', ''Akurdi''] \<and>
   details_block (SummaryBox ''Prices rose.''
      (Some \<lparr>used_price_columns = None, query_type = Some ''comparison'',
             areas = Some [''Wakad'', ''Akurdi''], area = None\<rparr>)) = None"
  by (simp add: SummaryBox_def)

section \<open>Columns, headers and cells of the table\<close>

lemma header_labels:
  "map header_label whitelist = [''FINAL LOCATION'', ''YEAR'', ''CITY'', ''PRICE COMPUTED'']"
  by (simp add: whitelist_def header_label_def upper_char_def)

lemma whitelist_not_inherited: "k \<in> set whitelist \<Longrightarrow> k \<notin> set object_prototype_keys"
  by (simp add: whitelist_def) (elim disjE; simp add: object_prototype_keys_def)

lemma whitelist_own: "k \<in> set whitelist \<Longrightarrow> has_property k d = (map_of d k \<noteq> None)"
  using whitelist_not_inherited [of k] by (simp add: has_property_def)

text \<open>
  C7. For every non-empty list of rows, the columns are the keys of the whitelist
  \<open>final location\<close>, \<open>year\<close>, \<open>city\<close>, \<open>__price_computed__\<close> that the first row has, in
  the order of the whitelist; the later rows are not looked at. The header of a column
  is its key with the double underscores removed, the single underscores replaced by
  blanks and the letters in upper case, so that \<open>__price_computed__\<close> is headed
  \<open>PRICE COMPUTED\<close>. Every row gives one cell per column: the value as a string (a
  string as it is, a boolean as \<open>true\<close> or \<open>false\<close>, a number in the engine's notation
  of numbers, whatever the type of the numbers and their notation are), and the empty
  string for null and undefined.
\<close>

theorem C7_table_columns_headers_cells:
  assumes "rows \<noteq> []"
  shows "\<exists>t. DataTable number_string (Some rows) = Some t \<and>
     columns t = filter (\<lambda>k. map_of (hd rows) k \<noteq> None)
                   [''final location'', ''year'', ''city'', ''__price_computed__''] \<and>
     headers t = map header_label (columns t) \<and>
     map header_label [''final location'', ''year'', ''city'', ''__price_computed__''] =
       [''FINAL LOCATION'', ''YEAR'', ''CITY'', ''PRICE COMPUTED''] \<and>
     cells t = map (\<lambda>row. map (cell_text number_string row) (columns t)) rows \<and>
     (\<forall>row k. cell_text number_string row k =
        (case get row k of
           JUndefined \<Rightarrow> []
         | JNull \<Rightarrow> []
         | JBool b \<Rightarrow> (if b then ''true'' else ''false'')
         | JNum x \<Rightarrow> number_string x
         | JStr s \<Rightarrow> s))"
proof -
  from assms obtain first rest where rows: "rows = first # rest" by (cases rows) auto
  have "filter (\<lambda>k. has_property k first) whitelist = filter (\<lambda>k. map_of first k \<noteq> None) whitelist"
    by (rule filter_cong) (simp_all add: whitelist_own)
  moreover have "cell_text number_string row k =
        (case get row k of
           JUndefined \<Rightarrow> []
         | JNull \<Rightarrow> []
         | JBool b \<Rightarrow> (if b then ''true'' else ''false'')
         | JNum x \<Rightarrow> number_string x
         | JStr s \<Rightarrow> s)" for row :: "'a jsval props" and k
    by (cases "get row k") (simp_all add: cell_text_def)
  ultimately show ?thesis
    using rows header_labels by (simp add: DataTable_def whitelist_def Let_def)
qed

text \<open>
  A first row with the four keys, in another order and with a null city, and a second
  row with two of them; the numbers are safe integers, in decimal notation.
\<close>

theorem C7_witness:
  "table_rows \<noteq> [] \<and>
   (\<exists>t. DataTable decimal (Some table_rows) = Some t \<and>
       columns t = [''final location'', ''year'', ''city'', ''__price_computed__''] \<and>
       headers t = [''FINAL LOCATION'', ''YEAR'', ''CITY'', ''PRICE COMPUTED''] \<and>
       cells t = [[''Wakad'', ''2021'', [], ''5000''], [[], ''2022'', ''Pune'', []]])"
proof -
  have ne: "table_rows \<noteq> []" by (simp add: table_rows_def)
  have n: "decimal 2021 = ''2021''" "decimal 2022 = ''2022''" "decimal 5000 = ''5000''"
    by (simp_all add: decimal_def digits.simps)
  have own: "has_property k d = (map_of d k \<noteq> None)" if "k \<in> set whitelist"
    for k and d :: jsobj
    using that by (rule whitelist_own)
  from C7_table_columns_headers_cells [OF ne, of decimal] show ?thesis
    by (simp add: table_rows_def DataTable_def whitelist_def own
        header_labels [unfolded whitelist_def] cell_text_def get_def n)
qed

section \<open>Property names of numbers\<close>

lemma digit_char_inj:
  "i < 10 \<Longrightarrow> j < 10 \<Longrightarrow> ''0123456789'' ! i = ''0123456789'' ! j \<Longrightarrow> i = j"
proof -
  assume a: "i < 10" "j < 10" "''0123456789'' ! i = ''0123456789'' ! j"
  have d: "distinct ''0123456789''" by simp
  from a show "i = j"
    using nth_eq_iff_index_eq [OF d, of i j] by simp
qed

lemma digits_nonempty: "digits n \<noteq> []"
  by (subst digits.simps) simp

lemma digit_char_mem: "i < 10 \<Longrightarrow> ''0123456789'' ! i \<in> set ''0123456789''"
  using nth_mem [of i "''0123456789''"] by simp

lemma digits_chars: "set (digits n) \<subseteq> set ''0123456789''"
proof (induction n rule: digits.induct)
  case (1 n)
  show ?case
  proof (cases "n < 10")
    case True
    then have "nat n < 10" by simp
    from digit_char_mem [OF this] True show ?thesis
      by (subst digits.simps) simp
  next
    case False
    then have "nat (n mod 10) < 10" by simp
    from digit_char_mem [OF this] 1 False show ?thesis
      by (subst digits.simps) simp
  qed
qed

lemma digits_inj: "0 \<le> m \<Longrightarrow> 0 \<le> n \<Longrightarrow> digits m = digits n \<Longrightarrow> m = n"
proof (induction m arbitrary: n rule: digits.induct)
  case (1 m)
  show ?case
  proof (cases "m < 10")
    case True
    then have m1: "digits m = [''0123456789'' ! nat m]"
      by (subst digits.simps) simp
    show ?thesis
    proof (cases "n < 10")
      case n: True
      then have "digits n = [''0123456789'' ! nat n]"
        by (subst digits.simps) simp
      with m1 "1.prems" have "''0123456789'' ! nat m = ''0123456789'' ! nat n" by simp
      moreover from True n have "nat m < 10" "nat n < 10" by simp_all
      ultimately have "nat m = nat n" by (rule digit_char_inj [rotated 2])
      with "1.prems" show ?thesis by simp
    next
      case False
      then have "digits n = digits (n div 10) @ [''0123456789'' ! nat (n mod 10)]"
        by (subst digits.simps) simp
      with m1 "1.prems" digits_nonempty [of "n div 10"] show ?thesis by simp
    qed
  next
    case False
    then have m2: "digits m = digits (m div 10) @ [''0123456789'' ! nat (m mod 10)]"
      by (subst digits.simps) simp
    show ?thesis
    proof (cases "n < 10")
      case True
      then have "digits n = [''0123456789'' ! nat n]"
        by (subst digits.simps) simp
      with m2 "1.prems" digits_nonempty [of "m div 10"] show ?thesis by simp
    next
      case n: False
      then have "digits n = digits (n div 10) @ [''0123456789'' ! nat (n mod 10)]"
        by (subst digits.simps) simp
      with m2 "1.prems" have eq: "digits (m div 10) = digits (n div 10)"
        and last: "''0123456789'' ! nat (m mod 10) = ''0123456789'' ! nat (n mod 10)"
        by simp_all
      from "1.prems" have "0 \<le> m div 10" "0 \<le> n div 10" by simp_all
      from "1.IH" [OF False this eq] have d: "m div 10 = n div 10" .
      have "nat (m mod 10) < 10" "nat (n mod 10) < 10" by simp_all
      from digit_char_inj [OF this last] have "m mod 10 = n mod 10" by simp
      with d have "10 * (m div 10) + m mod 10 = 10 * (n div 10) + n mod 10" by simp
      then show ?thesis by simp
    qed
  qed
qed

lemma minus_not_digit: "CHR ''-'' \<notin> set (digits k)"
proof
  assume "CHR ''-'' \<in> set (digits k)"
  with digits_chars [of k] have "CHR ''-'' \<in> set ''0123456789''" by (rule subsetD)
  then show False by simp
qed

lemma digits_not_minus: "digits k \<noteq> CHR ''-'' # t"
proof
  assume "digits k = CHR ''-'' # t"
  then have "CHR ''-'' \<in> set (digits k)" by simp
  with minus_not_digit [of k] show False by simp
qed

lemma decimal_inj: "decimal m = decimal n \<Longrightarrow> m = n"
proof -
  assume eq: "decimal m = decimal n"
  show "m = n"
  proof (cases "m < 0")
    case True
    show ?thesis
    proof (cases "n < 0")
      case n: True
      with True eq have "digits (- m) = digits (- n)" by (simp add: decimal_def)
      with True n digits_inj [of "- m" "- n"] show ?thesis by simp
    next
      case False
      with True eq have "digits n = CHR ''-'' # digits (- m)" by (simp add: decimal_def)
      with digits_not_minus show ?thesis by blast
    qed
  next
    case False
    show ?thesis
    proof (cases "n < 0")
      case True
      with False eq have "digits m = CHR ''-'' # digits (- n)" by (simp add: decimal_def)
      with digits_not_minus show ?thesis by blast
    next
      case n: False
      with False eq digits_inj [of m n] show ?thesis by (simp add: decimal_def)
    qed
  qed
qed

lemma digits_hd: "hd (digits n) \<in> set ''0123456789''"
proof -
  from digits_nonempty [of n] have "hd (digits n) \<in> set (digits n)" by simp
  with digits_chars [of n] show ?thesis by (rule subsetD)
qed

lemma decimal_hd: "hd (decimal n) \<in> set ''-0123456789''"
proof (cases "n < 0")
  case True
  then show ?thesis by (simp add: decimal_def)
next
  case False
  with digits_hd [of n] show ?thesis by (simp add: decimal_def)
qed

lemma prototype_key_hd:
  "k \<in> set object_prototype_keys \<Longrightarrow> hd k \<notin> set ''-0123456789''"
  by (simp add: object_prototype_keys_def) (elim disjE; simp)

lemma decimal_not_inherited: "decimal n \<notin> set object_prototype_keys"
  using prototype_key_hd [of "decimal n"] decimal_hd [of n] by blast

lemma map_of_insert_index:
  "k \<notin> fst ` set ps \<Longrightarrow> map_of (insert_index i k v ps) = (map_of ps)(k \<mapsto> v)"
proof (induction ps)
  case Nil
  then show ?case by simp
next
  case (Cons p ps)
  then have k: "k \<noteq> fst p" and ih: "map_of (insert_index i k v ps) = (map_of ps)(k \<mapsto> v)"
    by auto
  obtain a b where p: "p = (a, b)" by (cases p)
  from k p have "(map_of ps)(k \<mapsto> v, a \<mapsto> b) = (map_of ps)(a \<mapsto> b, k \<mapsto> v)"
    by (simp add: fun_upd_twist)
  with ih p k show ?case
    by (auto simp: fun_eq_iff split: option.splits)
qed

lemma keys_insert_index: "fst ` set (insert_index i k v ps) = insert k (fst ` set ps)"
  by (induction ps) (auto split: option.splits)

lemma distinct_insert_index:
  "k \<notin> fst ` set ps \<Longrightarrow> distinct (map fst ps) \<Longrightarrow> distinct (map fst (insert_index i k v ps))"
proof (induction ps)
  case Nil
  then show ?case by simp
next
  case (Cons p ps)
  then have "k \<noteq> fst p" "k \<notin> fst ` set ps" "fst p \<notin> fst ` set ps"
    "distinct (map fst (insert_index i k v ps))" "distinct (map fst ps)"
    by auto
  then show ?case
    by (simp add: keys_insert_index split: option.splits)
qed

lemma map_of_set_own: "map_of (set_own k v ps) = (map_of ps)(k \<mapsto> v)"
proof (cases "k \<in> fst ` set ps")
  case True
  then have "map_of ps k \<noteq> None" by (simp add: map_of_eq_None_iff)
  then show ?thesis
    by (simp add: set_own_def update_conv' split: option.splits)
next
  case False
  then have "map_of ps k = None" by (simp add: map_of_eq_None_iff)
  with False show ?thesis
    by (simp add: set_own_def update_conv' map_of_insert_index split: option.splits)
qed

lemma distinct_set_own: "distinct (map fst ps) \<Longrightarrow> distinct (map fst (set_own k v ps))"
proof (cases "k \<in> fst ` set ps")
  case True
  assume "distinct (map fst ps)"
  moreover from True have "map_of ps k \<noteq> None" by (simp add: map_of_eq_None_iff)
  ultimately show ?thesis
    by (simp add: set_own_def distinct_update split: option.splits)
next
  case False
  assume "distinct (map fst ps)"
  moreover from False have "map_of ps k = None" by (simp add: map_of_eq_None_iff)
  ultimately show ?thesis using False
    by (simp add: set_own_def distinct_update distinct_insert_index split: option.splits)
qed

section \<open>The pivot of the comparison chart\<close>

lemma area_values_snoc:
  "area_values (ds @ [d]) n =
     (if get d ''year'' = JNum n
      then (area_values ds n)(js_string decimal (get d ''area'') \<mapsto> get d ''__price_computed__'')
      else area_values ds n)"
  by (simp add: area_values_def)

lemma area_values_none:
  "\<forall>d\<in>set ds. get d ''year'' \<noteq> JNum n \<Longrightarrow> area_values ds n = Map.empty"
proof -
  assume "\<forall>d\<in>set ds. get d ''year'' \<noteq> JNum n"
  then have "filter (\<lambda>d. get d ''year'' = JNum n) ds = []"
    by (simp add: filter_empty_conv)
  then show ?thesis by (simp add: area_values_def)
qed

text \<open>One \<open>forEach\<close> step on a well-formed record.\<close>

lemma modelled_get: "modelled_record d \<Longrightarrow> modelled (get d k)"
proof (cases "map_of d k")
  case None
  then show ?thesis by (simp add: get_def)
next
  case (Some v)
  assume "modelled_record d"
  moreover from Some have "(k, v) \<in> set d" by (rule map_of_SomeD)
  ultimately have "modelled v" by (auto simp: modelled_record_def list_all_iff)
  with Some show ?thesis by (simp add: get_def)
qed

lemma group_by_year_Some:
  assumes m: "modelled_record d" and y: "get d ''year'' = JNum n"
    and a: "js_string decimal (get d ''area'') \<noteq> ''__proto__''"
  shows "group_by_year ym d =
     Some (set_own (decimal n)
        (set_own (js_string decimal (get d ''area'')) (get d ''__price_computed__'')
          (case map_of ym (decimal n) of None \<Rightarrow> [(''year'', JNum n)] | Some r \<Rightarrow> r))
        (if map_of ym (decimal n) = None then set_own (decimal n) [(''year'', JNum n)] ym
         else ym))"
proof -
  from modelled_get [OF m, of "''year''"] y have ky: "property_key (get d ''year'') = Some (decimal n)"
    by (simp add: property_key_def)
  from modelled_get [OF m, of "''area''"]
  have ka: "property_key (get d ''area'') = Some (js_string decimal (get d ''area''))"
    by (simp add: property_key_def)
  show ?thesis
  proof (cases "map_of ym (decimal n)")
    case None
    with y a ky ka decimal_not_inherited [of n] show ?thesis
      by (simp add: group_by_year_def Let_def map_of_set_own)
  next
    case (Some r)
    with y a ky ka decimal_not_inherited [of n] show ?thesis
      by (simp add: group_by_year_def Let_def map_of_set_own)
  qed
qed

lemma group_by_year_result:
  assumes m: "modelled_record d" and y: "get d ''year'' = JNum n"
    and a: "js_string decimal (get d ''area'') \<noteq> ''__proto__''"
  obtains ym' where "group_by_year ym d = Some ym'"
    and "map_of ym' =
     (map_of ym)(decimal n \<mapsto>
        set_own (js_string decimal (get d ''area'')) (get d ''__price_computed__'')
          (case map_of ym (decimal n) of None \<Rightarrow> [(''year'', JNum n)] | Some r \<Rightarrow> r))"
    and "distinct (map fst ym) \<Longrightarrow> distinct (map fst ym')"
proof -
  let ?row = "set_own (js_string decimal (get d ''area'')) (get d ''__price_computed__'')
          (case map_of ym (decimal n) of None \<Rightarrow> [(''year'', JNum n)] | Some r \<Rightarrow> r)"
  let ?ym1 = "if map_of ym (decimal n) = None then set_own (decimal n) [(''year'', JNum n)] ym
         else ym"
  have 1: "group_by_year ym d = Some (set_own (decimal n) ?row ?ym1)"
    using m y a by (rule group_by_year_Some)
  have 2: "map_of (set_own (decimal n) ?row ?ym1) = (map_of ym)(decimal n \<mapsto> ?row)"
    by (simp add: map_of_set_own)
  have 3: "distinct (map fst (set_own (decimal n) ?row ?ym1))" if "distinct (map fst ym)"
    using that by (simp add: distinct_set_own)
  from 1 2 3 show ?thesis by (rule that)
qed

lemma pivoted_step:
  assumes inv: "pivoted ds ym" and ok: "chart_record_ok d"
  shows "\<exists>ym'. group_by_year ym d = Some ym' \<and> pivoted (ds @ [d]) ym'"
proof -
  from ok obtain n0 where y: "get d ''year'' = JNum n0"
    by (cases "get d ''year''") (auto simp: chart_record_ok_def)
  let ?a = "js_string decimal (get d ''area'')"
  let ?p = "get d ''__price_computed__''"
  let ?row0 = "case map_of ym (decimal n0) of None \<Rightarrow> [(''year'', JNum n0)] | Some r \<Rightarrow> r"
  from ok have a1: "?a \<noteq> ''year''" and a2: "?a \<noteq> ''__proto__''"
    and md: "modelled_record d"
    by (simp_all add: chart_record_ok_def)
  from group_by_year_result [OF md y a2, of ym] obtain ym' where
    res: "group_by_year ym d = Some ym'"
    and m: "map_of ym' = (map_of ym)(decimal n0 \<mapsto> set_own ?a ?p ?row0)"
    and dist': "distinct (map fst ym) \<Longrightarrow> distinct (map fst ym')"
    by blast
  from inv have dist: "distinct (map fst ym)"
    and rows: "\<And>k row. map_of ym k = Some row \<Longrightarrow>
         \<exists>n. k = decimal n \<and> (\<exists>d\<in>set ds. get d ''year'' = JNum n) \<and>
              distinct (map fst row) \<and> map_of row = (area_values ds n)(''year'' \<mapsto> JNum n)"
    and cover: "\<And>d n. d \<in> set ds \<Longrightarrow> get d ''year'' = JNum n \<Longrightarrow> map_of ym (decimal n) \<noteq> None"
    unfolding pivoted_def by blast+
  have row0: "distinct (map fst ?row0) \<and> map_of ?row0 = (area_values ds n0)(''year'' \<mapsto> JNum n0)"
  proof (cases "map_of ym (decimal n0)")
    case None
    with cover have "\<forall>d\<in>set ds. get d ''year'' \<noteq> JNum n0" by blast
    from area_values_none [OF this] None show ?thesis by simp
  next
    case (Some r)
    from rows [OF Some] obtain n where "decimal n0 = decimal n"
      and r: "distinct (map fst r)" "map_of r = (area_values ds n)(''year'' \<mapsto> JNum n)"
      by blast
    from decimal_inj [OF this(1)] r Some show ?thesis by simp
  qed
  have new: "distinct (map fst (set_own ?a ?p ?row0))"
    "map_of (set_own ?a ?p ?row0) = (area_values (ds @ [d]) n0)(''year'' \<mapsto> JNum n0)"
  proof -
    from row0 show "distinct (map fst (set_own ?a ?p ?row0))"
      by (simp add: distinct_set_own)
    from row0 have "map_of (set_own ?a ?p ?row0) = (area_values ds n0)(''year'' \<mapsto> JNum n0, ?a \<mapsto> ?p)"
      by (simp add: map_of_set_own)
    also from a1 have "\<dots> = (area_values ds n0)(?a \<mapsto> ?p, ''year'' \<mapsto> JNum n0)"
      by (simp add: fun_upd_twist)
    finally show "map_of (set_own ?a ?p ?row0) = (area_values (ds @ [d]) n0)(''year'' \<mapsto> JNum n0)"
      using y by (simp add: area_values_snoc)
  qed
  have c1: "distinct (map fst ym')"
    using dist by (rule dist')
  have c2: "\<exists>n. k = decimal n \<and> (\<exists>d'\<in>set (ds @ [d]). get d' ''year'' = JNum n) \<and>
              distinct (map fst row) \<and>
              map_of row = (area_values (ds @ [d]) n)(''year'' \<mapsto> JNum n)"
    if look: "map_of ym' k = Some row" for k row
  proof (cases "k = decimal n0")
    case True
    with look m have "row = set_own ?a ?p ?row0" by simp
    with new True y show ?thesis by auto
  next
    case False
    with look m have "map_of ym k = Some row" by simp
    from rows [OF this] obtain n where n: "k = decimal n" "\<exists>d\<in>set ds. get d ''year'' = JNum n"
      "distinct (map fst row)" "map_of row = (area_values ds n)(''year'' \<mapsto> JNum n)"
      by blast
    from False n(1) have "n \<noteq> n0" by auto
    with y have "area_values (ds @ [d]) n = area_values ds n"
      by (simp add: area_values_snoc)
    with n show ?thesis by auto
  qed
  have c3: "map_of ym' (decimal n) \<noteq> None"
    if "d' \<in> set (ds @ [d])" "get d' ''year'' = JNum n" for d' n
  proof (cases "n = n0")
    case True
    with m show ?thesis by simp
  next
    case False
    with that y have "d' \<in> set ds" by auto
    from cover [OF this that(2)] m show ?thesis by simp
  qed
  from c1 c2 c3 have "pivoted (ds @ [d]) ym'"
    unfolding pivoted_def by blast
  with res show ?thesis by blast
qed

lemma pivoted_fill:
  "pivoted pre ym \<Longrightarrow> list_all chart_record_ok ds \<Longrightarrow>
   \<exists>ym'. fill_yearMap ds ym = Some ym' \<and> pivoted (pre @ ds) ym'"
proof (induction ds arbitrary: pre ym)
  case Nil
  then show ?case by simp
next
  case (Cons d ds)
  then have "chart_record_ok d" and rest: "list_all chart_record_ok ds" by simp_all
  from pivoted_step [OF Cons.prems(1) this(1)] obtain ym1 where
    1: "group_by_year ym d = Some ym1" and 2: "pivoted (pre @ [d]) ym1" by blast
  from Cons.IH [OF 2 rest] obtain ym' where
    "fill_yearMap ds ym1 = Some ym'" "pivoted ((pre @ [d]) @ ds) ym'" by blast
  with 1 show ?case by simp
qed

lemma pivoted_yearMap:
  assumes "list_all chart_record_ok ds"
  obtains ym where "fill_yearMap ds [] = Some ym" and "pivoted ds ym"
proof -
  have "pivoted [] []" by (simp add: pivoted_def)
  from pivoted_fill [OF this assms] show ?thesis
    using that by auto
qed

lemma pivoted_rows:
  assumes inv: "pivoted ds ym" and mem: "(k, row) \<in> set ym"
  shows "\<exists>n. k = decimal n \<and> (\<exists>d\<in>set ds. get d ''year'' = JNum n) \<and>
           get row ''year'' = JNum n \<and> distinct (map fst row) \<and>
           (\<forall>a. a \<noteq> ''year'' \<longrightarrow> map_of row a = area_values ds n a)"
proof -
  from inv have "distinct (map fst ym)" by (simp add: pivoted_def)
  with mem have "map_of ym k = Some row" by simp
  with inv obtain n where n: "k = decimal n" "\<exists>d\<in>set ds. get d ''year'' = JNum n"
    "distinct (map fst row)" "map_of row = (area_values ds n)(''year'' \<mapsto> JNum n)"
    unfolding pivoted_def by blast
  from n(4) have "get row ''year'' = JNum n" by (simp add: get_def)
  moreover from n(4) have "\<forall>a. a \<noteq> ''year'' \<longrightarrow> map_of row a = area_values ds n a" by simp
  ultimately show ?thesis using n by blast
qed

lemma pivoted_years:
  assumes inv: "pivoted ds ym"
  shows "distinct (map (\<lambda>r. num_value (get r ''year'')) (map snd ym))"
    and "set (map (\<lambda>r. num_value (get r ''year'')) (map snd ym)) =
           {n. \<exists>d\<in>set ds. get d ''year'' = JNum n}"
proof -
  let ?f = "\<lambda>r. num_value (get r ''year'')"
  have key: "fst kr = decimal (?f (snd kr))" if "kr \<in> set ym" for kr
  proof -
    obtain k row where kr: "kr = (k, row)" by (cases kr)
    with that pivoted_rows [OF inv, of k row] show ?thesis by auto
  qed
  then have eq: "map fst ym = map decimal (map ?f (map snd ym))" by simp
  from inv have "distinct (map fst ym)" by (simp add: pivoted_def)
  then have "distinct (map decimal (map ?f (map snd ym)))" by (subst eq [symmetric])
  with distinct_map [of decimal "map ?f (map snd ym)"]
  show "distinct (map ?f (map snd ym))" by blast
  show "set (map ?f (map snd ym)) = {n. \<exists>d\<in>set ds. get d ''year'' = JNum n}"
  proof (intro set_eqI iffI)
    fix n
    assume "n \<in> set (map ?f (map snd ym))"
    then obtain k row where mem: "(k, row) \<in> set ym" and n: "n = ?f row" by auto
    from pivoted_rows [OF inv mem] n show "n \<in> {n. \<exists>d\<in>set ds. get d ''year'' = JNum n}"
      by auto
  next
    fix n
    assume "n \<in> {n. \<exists>d\<in>set ds. get d ''year'' = JNum n}"
    then obtain d where d: "d \<in> set ds" "get d ''year'' = JNum n" by blast
    with inv obtain row where "map_of ym (decimal n) = Some row"
      unfolding pivoted_def by blast
    then have mem: "(decimal n, row) \<in> set ym" by (rule map_of_SomeD)
    from pivoted_rows [OF inv mem] obtain n' where "decimal n = decimal n'"
      "get row ''year'' = JNum n'" by blast
    with decimal_inj [of n n'] have "?f row = n" by simp
    with mem show "n \<in> set (map ?f (map snd ym))" by force
  qed
qed


lemma strict_sorted_sort_key:
  fixes f :: "'a \<Rightarrow> int"
  assumes "distinct (map f xs)"
  shows "sorted_wrt (<) (map f (sort_key f xs))"
proof -
  from assms have "distinct xs" "inj_on f (set xs)"
    by (simp_all add: distinct_map)
  then have "distinct (map f (sort_key f xs))"
    by (simp add: distinct_map)
  moreover have "sorted (map f (sort_key f xs))"
    by (rule sorted_sort_key)
  ultimately show ?thesis
    by (simp add: strict_sorted_iff)
qed

lemma comparison_rows:
  assumes wf: "list_all chart_record_ok ds"
  obtains rows where "comparison_data ds = Some rows"
    and "map (\<lambda>r. get r ''year'') rows = map JNum (map (\<lambda>r. num_value (get r ''year'')) rows)"
    and "sorted_wrt (<) (map (\<lambda>r. num_value (get r ''year'')) rows)"
    and "set (map (\<lambda>r. num_value (get r ''year'')) rows) =
           {n. \<exists>d\<in>set ds. get d ''year'' = JNum n}"
    and "\<forall>r\<in>set rows. distinct (map fst r) \<and>
           (\<forall>a. a \<noteq> ''year'' \<longrightarrow> map_of r a = area_values ds (num_value (get r ''year'')) a)"
proof -
  from pivoted_yearMap [OF wf] obtain ym where
    ym: "fill_yearMap ds [] = Some ym" and inv: "pivoted ds ym" .
  let ?f = "\<lambda>r. num_value (get r ''year'')"
  define rows where "rows = sort_key ?f (map snd ym)"
  have row: "\<exists>n. get r ''year'' = JNum n \<and> distinct (map fst r) \<and>
           (\<forall>a. a \<noteq> ''year'' \<longrightarrow> map_of r a = area_values ds n a)"
    if "r \<in> set (map snd ym)" for r
  proof -
    from that obtain k where "(k, r) \<in> set ym" by auto
    from pivoted_rows [OF inv this] show ?thesis by blast
  qed
  have set_rows: "set rows = set (map snd ym)"
    by (simp add: rows_def)
  from row have "list_all (\<lambda>r. is_number (get r ''year'')) (map snd ym)"
    unfolding list_all_iff by fastforce
  with ym have 1: "comparison_data ds = Some rows"
    by (simp add: comparison_data_def sort_by_year_def rows_def)
  have "JNum (?f r) = get r ''year''" if "r \<in> set rows" for r
    using row [of r] that set_rows by auto
  then have 2: "map (\<lambda>r. get r ''year'') rows = map JNum (map ?f rows)"
    by simp
  from pivoted_years(1) [OF inv] have 3: "sorted_wrt (<) (map ?f rows)"
    unfolding rows_def by (rule strict_sorted_sort_key)
  have "set (map ?f rows) = set (map ?f (map snd ym))"
    unfolding rows_def by (simp only: set_map set_sort)
  also note pivoted_years(2) [OF inv]
  finally have 4: "set (map ?f rows) = {n. \<exists>d\<in>set ds. get d ''year'' = JNum n}" .
  have 5: "\<forall>r\<in>set rows. distinct (map fst r) \<and>
           (\<forall>a. a \<noteq> ''year'' \<longrightarrow> map_of r a = area_values ds (?f r) a)"
  proof
    fix r
    assume "r \<in> set rows"
    with set_rows row [of r] obtain n where "get r ''year'' = JNum n" "distinct (map fst r)"
      "\<forall>a. a \<noteq> ''year'' \<longrightarrow> map_of r a = area_values ds n a" by blast
    then show "distinct (map fst r) \<and>
           (\<forall>a. a \<noteq> ''year'' \<longrightarrow> map_of r a = area_values ds (?f r) a)" by simp
  qed
  from 1 2 3 4 5 show ?thesis by (rule that)
qed

lemma isComparison_nonempty: "isComparison ds \<Longrightarrow> ds \<noteq> []"
  by (auto simp: isComparison_def)

lemma eval_keys:
  "decimal 2021 = ''2021''" "decimal 2022 = ''2022''"
  "array_index ''2021'' = Some 2021" "array_index ''2022'' = Some 2022"
  "array_index ''Wakad'' = None" "array_index ''Akurdi'' = None" "array_index ''year'' = None"
  "''2021'' \<notin> set object_prototype_keys" "''2022'' \<notin> set object_prototype_keys"
  by (simp_all add: decimal_def array_index_def parse_digits_def digits.simps
      object_prototype_keys_def)

lemma safe_numbers:
  "safe_integer 1990" "safe_integer 2014" "safe_integer 2015" "safe_integer 2021"
  "safe_integer 2022" "safe_integer 4800" "safe_integer 5000" "safe_integer 5200"
  by (simp_all add: safe_integer_def)

lemma yearMap_of_spec_example:
  "fill_yearMap spec_example [] =
     Some [(''2021'', [(''year'', JNum 2021), (''Wakad'', JNum 5000), (''Akurdi'', JNum 4800)]),
           (''2022'', [(''year'', JNum 2022), (''Wakad'', JNum 5200)])]"
  by (simp add: spec_example_def group_by_year_def property_key_def safe_numbers get_def
      eval_keys set_own_def Let_def)

lemma chart_of_spec_example:
  "PriceChart (Some spec_example) =
     Some (PriceComparison
       [[(''year'', JNum 2021), (''Wakad'', JNum 5000), (''Akurdi'', JNum 4800)],
        [(''year'', JNum 2022), (''Wakad'', JNum 5200)]])"
proof -
  have "isComparison spec_example" "spec_example \<noteq> []" "list_all modelled_record spec_example"
    by (simp_all add: spec_example_def isComparison_def get_def modelled_record_def safe_numbers)
  then show ?thesis
    by (simp add: PriceChart_def comparison_data_def yearMap_of_spec_example sort_by_year_def
        get_def)
qed

text \<open>
  C1, as amended. For every list of records in comparison mode in which every record
  has a numeric year and an area whose name is neither \<open>year\<close> nor \<open>__proto__\<close>
  (the numbers of the records being numbers of the model), the output has exactly one
  row per distinct year, in ascending order of the years.
  The row of a year holds the year and, for every area that has a record in that year,
  one field named by the area, holding the computed price of the last such record; an
  area without a record in that year has no field in the row. The input of the
  specification's example gives its output.
\<close>

theorem C1_comparison_pivot:
  assumes wf: "list_all chart_record_ok ds" and cmp: "isComparison ds"
  shows "(\<exists>rows ys. PriceChart (Some ds) = Some (PriceComparison rows) \<and>
     map (\<lambda>r. get r ''year'') rows = map JNum ys \<and> sorted_wrt (<) ys \<and>
     set ys = {n. \<exists>d\<in>set ds. get d ''year'' = JNum n} \<and>
     (\<forall>i<length rows. distinct (map fst (rows ! i)) \<and>
        (\<forall>a. a \<noteq> ''year'' \<longrightarrow> map_of (rows ! i) a = area_values ds (ys ! i) a))) \<and>
   PriceChart (Some spec_example) =
     Some (PriceComparison
       [[(''year'', JNum 2021), (''Wakad'', JNum 5000), (''Akurdi'', JNum 4800)],
        [(''year'', JNum 2022), (''Wakad'', JNum 5200)]])"
proof -
  let ?f = "\<lambda>r. num_value (get r ''year'')"
  from comparison_rows [OF wf] obtain rows where
    r: "comparison_data ds = Some rows"
      "map (\<lambda>r. get r ''year'') rows = map JNum (map ?f rows)"
      "sorted_wrt (<) (map ?f rows)"
      "set (map ?f rows) = {n. \<exists>d\<in>set ds. get d ''year'' = JNum n}"
      "\<forall>r\<in>set rows. distinct (map fst r) \<and>
           (\<forall>a. a \<noteq> ''year'' \<longrightarrow> map_of r a = area_values ds (?f r) a)" .
  from wf have "list_all modelled_record ds"
    by (simp add: list_all_iff chart_record_ok_def)
  with cmp isComparison_nonempty [OF cmp] r(1)
  have "PriceChart (Some ds) = Some (PriceComparison rows)"
    by (simp add: PriceChart_def)
  moreover have "\<forall>i<length rows. distinct (map fst (rows ! i)) \<and>
        (\<forall>a. a \<noteq> ''year'' \<longrightarrow> map_of (rows ! i) a = area_values ds (map ?f rows ! i) a)"
  proof (intro allI impI)
    fix i
    assume i: "i < length rows"
    then have "rows ! i \<in> set rows" by (rule nth_mem)
    with r(5) i show "distinct (map fst (rows ! i)) \<and>
        (\<forall>a. a \<noteq> ''year'' \<longrightarrow> map_of (rows ! i) a = area_values ds (map ?f rows ! i) a)"
      by simp
  qed
  ultimately have "\<exists>rows ys. PriceChart (Some ds) = Some (PriceComparison rows) \<and>
     map (\<lambda>r. get r ''year'') rows = map JNum ys \<and> sorted_wrt (<) ys \<and>
     set ys = {n. \<exists>d\<in>set ds. get d ''year'' = JNum n} \<and>
     (\<forall>i<length rows. distinct (map fst (rows ! i)) \<and>
        (\<forall>a. a \<noteq> ''year'' \<longrightarrow> map_of (rows ! i) a = area_values ds (ys ! i) a))"
    using r(2,3,4) by blast
  with chart_of_spec_example show ?thesis by (rule conjI [rotated])
qed

text \<open>The example of the specification satisfies the hypotheses.\<close>

theorem C1_witness:
  "list_all chart_record_ok spec_example \<and> isComparison spec_example \<and>
   PriceChart (Some spec_example) =
     Some (PriceComparison
       [[(''year'', JNum 2021), (''Wakad'', JNum 5000), (''Akurdi'', JNum 4800)],
        [(''year'', JNum 2022), (''Wakad'', JNum 5200)]])"
proof -
  have wf: "list_all chart_record_ok spec_example"
    by (simp add: spec_example_def chart_record_ok_def modelled_record_def safe_numbers get_def)
  have cmp: "isComparison spec_example"
    by (simp add: spec_example_def isComparison_def get_def)
  from C1_comparison_pivot [OF wf cmp] wf cmp show ?thesis by blast
qed

text \<open>
  C1 as stated fails: a record of 2021 whose area is named \<open>year\<close> puts its price in
  the year field of its row; the output has no row keyed by 2021 and no field for the
  area.
\<close>

theorem C1_counterexample:
  "isComparison area_named_year \<and>
   PriceChart (Some area_named_year) = Some (PriceComparison [[(''year'', JNum 5000)]])"
  by (simp add: area_named_year_def PriceChart_def comparison_data_def isComparison_def get_def
      modelled_record_def property_key_def safe_numbers group_by_year_def eval_keys set_own_def
      sort_by_year_def Let_def)

section \<open>The mode of the chart\<close>

text \<open>What the code tests: the area of some record is truthy.\<close>

lemma isComparison_truthy_area:
  "isComparison ds \<longleftrightarrow> (\<exists>d\<in>set ds. truthy (get d ''area''))"
  by (simp add: isComparison_def list_ex_iff)

text \<open>
  C2 holds of the specification and of the comment in the code (comparison data has
  an area field), and not of the code. Both records carry an area field, one null and
  one empty: the specification's mode is comparison, and the code, which tests the
  truthiness of the value, selects single-series mode.
\<close>

theorem C2_area_present_but_falsy:
  "null_area_records \<noteq> [] \<and> spec_isComparison null_area_records \<and>
   \<not> isComparison null_area_records \<and>
   PriceChart (Some null_area_records) =
     Some (PriceTrend [[(''year'', JNum 2021), (''price'', JNum 5000)],
                       [(''year'', JNum 2022), (''price'', JNum 5200)]])"
  by (simp add: null_area_records_def spec_isComparison_def PriceChart_def trend_data_def
      isComparison_def get_def trend_point_def modelled_record_def safe_numbers)

section \<open>The plotted value of a single series\<close>

lemma find_values_of_entries:
  "\<forall>kv\<in>set d. P (snd kv) = Q kv \<Longrightarrow> find P (map snd d) = map_option snd (find Q d)"
  by (induction d) auto

text \<open>
  The code and the specification's wording agree on every record in which no field
  other than the year holds the number of the year.
\<close>

lemma trend_point_agrees:
  assumes keys: "distinct (map fst d)"
    and other: "\<forall>kv\<in>set d. fst kv \<noteq> ''year'' \<and> is_number (snd kv) \<longrightarrow> snd kv \<noteq> get d ''year''"
  shows "trend_point d = [(''year'', get d ''year''), (''price'', spec_plotted_value d)]"
proof -
  have "(is_number (snd kv) \<and> snd kv \<noteq> get d ''year'') =
        (fst kv \<noteq> ''year'' \<and> is_number (snd kv))" if mem: "kv \<in> set d" for kv
  proof (cases "fst kv = ''year''")
    case True
    obtain k v where kv: "kv = (k, v)" by (cases kv)
    with mem True keys have "map_of d ''year'' = Some v" by simp
    then have "get d ''year'' = v" by (simp add: get_def)
    with True kv show ?thesis by simp
  next
    case False
    with other mem show ?thesis by blast
  qed
  then have "find (\<lambda>v. is_number v \<and> v \<noteq> get d ''year'') (map snd d) =
      map_option snd (find (\<lambda>kv. fst kv \<noteq> ''year'' \<and> is_number (snd kv)) d)"
    by (intro find_values_of_entries) simp
  then show ?thesis
    by (simp add: trend_point_def spec_plotted_value_def Let_def split: option.splits)
qed

text \<open>
  C3 holds of the specification and not of the code. The records have a year and one
  numeric field, \<open>rate\<close>, and no computed price. The rate of 2014 is plotted; the rate
  of 2015 is 2015, the code takes it for the year, and plots nothing, where the
  specification's plotted value is 2015.
\<close>

theorem C3_value_equal_to_year_is_skipped:
  "PriceChart (Some rate_records) =
     Some (PriceTrend [[(''year'', JNum 2014), (''price'', JNum 1990)],
                       [(''year'', JNum 2015), (''price'', JUndefined)]]) \<and>
   map spec_plotted_value rate_records = [JNum 1990, JNum 2015]"
  by (simp add: rate_records_def PriceChart_def trend_data_def isComparison_def get_def
      trend_point_def spec_plotted_value_def modelled_record_def safe_numbers)

end
